theory Spec2Isabelle
  imports Main
begin

section \<open>The dashboard's configuration-status monitor (src/app/page.tsx)\<close>

text \<open>
  The component \<^verbatim>\<open>Dashboard\<close> (second version in the file, lines 410 to 972) keeps six
  React state variables and two refs, polls \<^verbatim>\<open>/api/config/status\<close> through
  \<^verbatim>\<open>fetchConfigStatus\<close>, retries failures through \<^verbatim>\<open>setTimeout\<close>, and derives a colour
  and an icon from the state. The embedding is an event machine: one step per callback
  the browser runs (a fetch settles, a timer fires, the visibility changes, the refresh
  button is clicked, the component unmounts), each followed by the re-render React
  performs.

  What the embedding takes from React and the browser: the state updates of one callback
  are applied together when the callback returns; \<^verbatim>\<open>useCallback(f, [retryCount])\<close> keeps
  the closure of the last render unless \<^verbatim>\<open>retryCount\<close> has changed; an effect whose
  dependency changed runs its cleanup and then its body before the next callback; a
  closure reads the \<^verbatim>\<open>retryCount\<close> and the \<^verbatim>\<open>fetchConfigStatus\<close> of the render that created
  it, so the \<^verbatim>\<open>fetchConfigStatus()\<close> inside the retry callback is the closure that
  scheduled the retry. Time is not modelled: a timer records its delay, and any pending
  timer may fire next.
\<close>

subsection \<open>Data\<close>

record validation =
  is_valid :: bool
  missing :: "string list"

record ConfigStatus =
  gemini_api_key_set :: bool
  db_url_set :: bool
  gemini_model :: string
  validation :: validation

text \<open>The constants of lines 435 to 437; delays are in milliseconds.\<close>

definition POLL_INTERVAL :: nat where "POLL_INTERVAL = 5000"
definition MAX_RETRIES :: nat where "MAX_RETRIES = 3"
definition RETRY_DELAY :: nat where "RETRY_DELAY = 2000"

text \<open>
  A pending browser timer. Its callback is a closure; what matters of the closure is the
  value of \<^verbatim>\<open>retryCount\<close> that the \<^verbatim>\<open>fetchConfigStatus\<close> it calls was created with
  (\<^verbatim>\<open>useCallback(..., [retryCount])\<close>: one closure per value of \<^verbatim>\<open>retryCount\<close>).
  \<open>Interval rc\<close> is the timer of \<^verbatim>\<open>setInterval(() => fetchConfigStatus(), POLL_INTERVAL)\<close>
  (its period is always \<open>POLL_INTERVAL\<close> and is not recorded),
  \<open>Timeout delay rc\<close> the one of \<^verbatim>\<open>setTimeout(() => {...}, delay)\<close> in the catch block.
\<close>

datatype timer = Interval nat | Timeout nat nat

text \<open>
  How an issued request settles: \<open>Success data now\<close> is a response with \<^verbatim>\<open>response.ok\<close>
  whose body parses (as the interface \<^verbatim>\<open>ConfigStatus\<close> declares it), \<open>now\<close> being the value
  of \<^verbatim>\<open>new Date()\<close>; \<open>Failure msg\<close> is any exception of the try block, \<open>msg\<close> being
  \<^verbatim>\<open>err.message\<close> or \<^verbatim>\<open>'Unknown error'\<close>.
\<close>

datatype outcome = Success ConfigStatus nat | Failure string

record dashboard =
  configStatus :: "ConfigStatus option"
  isLoading :: bool
  lastUpdate :: "nat option"
  isRefreshing :: bool
  retryCount :: nat
  error :: "string option"
  intervalRef :: "nat option"
  retryTimeoutRef :: "nat option"
  timers :: "(nat \<times> timer) list"
  nextTimer :: nat
  requests :: "(nat \<times> bool) list"
  listener :: "nat option"
  mounted :: bool

text \<open>
  The first eight fields are the source's \<^verbatim>\<open>useState\<close> and \<^verbatim>\<open>useRef\<close> values. The rest is
  the environment the callbacks act on: \<open>timers\<close> the pending timers with their ids
  (\<open>nextTimer\<close> the next id the browser hands out; ids are positive, so a ref holding one
  is truthy), \<open>requests\<close> the requests in flight, each with the \<^verbatim>\<open>retryCount\<close> of the closure
  that issued it and its \<^verbatim>\<open>isManualRefresh\<close> argument, \<open>listener\<close> the registered
  \<^verbatim>\<open>visibilitychange\<close> handler (the \<^verbatim>\<open>retryCount\<close> of its closure).
\<close>

subsection \<open>Timers\<close>

definition setTimer :: "timer \<Rightarrow> dashboard \<Rightarrow> nat \<times> dashboard" where
  "setTimer t s =
     (nextTimer s, s\<lparr>timers := timers s @ [(nextTimer s, t)], nextTimer := Suc (nextTimer s)\<rparr>)"

definition clearTimer :: "nat \<Rightarrow> dashboard \<Rightarrow> dashboard" where
  "clearTimer i s = s\<lparr>timers := filter (\<lambda>p. fst p \<noteq> i) (timers s)\<rparr>"

subsection \<open>fetchConfigStatus\<close>

text \<open>
  The async function runs in two parts: up to the \<^verbatim>\<open>await fetch(...)\<close> when it is called,
  and from there on when the request settles. \<open>rc\<close> is the closure's \<^verbatim>\<open>retryCount\<close>.
\<close>

definition fetchConfigStatus_call :: "nat \<Rightarrow> bool \<Rightarrow> dashboard \<Rightarrow> dashboard" where
  "fetchConfigStatus_call rc isManualRefresh s =
     (let s1 = (if isManualRefresh then s\<lparr>isRefreshing := True\<rparr> else s)
      in s1\<lparr>requests := requests s1 @ [(rc, isManualRefresh)]\<rparr>)"

definition fetchConfigStatus_settle :: "nat \<Rightarrow> bool \<Rightarrow> outcome \<Rightarrow> dashboard \<Rightarrow> dashboard" where
  "fetchConfigStatus_settle rc isManualRefresh r s =
     (case r of
        Success data now \<Rightarrow>
          (let s1 = s\<lparr>configStatus := Some data, lastUpdate := Some now, isLoading := False,
                       error := None, retryCount := 0\<rparr>
           in if isManualRefresh then s1\<lparr>isRefreshing := False\<rparr> else s1)
      | Failure msg \<Rightarrow>
          (let s1 = s\<lparr>error := Some msg\<rparr>;
               s2 = (if isManualRefresh then s1\<lparr>isRefreshing := False\<rparr> else s1)
           in if rc < MAX_RETRIES then
                (let delay = RETRY_DELAY * 2 ^ rc;
                     (i, s3) = setTimer (Timeout delay rc) s2
                 in s3\<lparr>retryTimeoutRef := Some i\<rparr>)
              else s2\<lparr>isLoading := False, configStatus := None\<rparr>))"

text \<open>The callback of the retry timer: \<^verbatim>\<open>setRetryCount(prev => prev + 1); fetchConfigStatus();\<close>\<close>

definition retryCallback :: "nat \<Rightarrow> dashboard \<Rightarrow> dashboard" where
  "retryCallback rc s = fetchConfigStatus_call rc False (s\<lparr>retryCount := retryCount s + 1\<rparr>)"

definition handleManualRefresh :: "nat \<Rightarrow> dashboard \<Rightarrow> dashboard" where
  "handleManualRefresh rc s = fetchConfigStatus_call rc True (s\<lparr>retryCount := 0\<rparr>)"

subsection \<open>The effect: polling, visibility, cleanup\<close>

definition startPolling :: "nat \<Rightarrow> dashboard \<Rightarrow> dashboard" where
  "startPolling rc s =
     (let s1 = (case intervalRef s of Some i \<Rightarrow> clearTimer i s | None \<Rightarrow> s);
          (i, s2) = setTimer (Interval rc) s1
      in s2\<lparr>intervalRef := Some i\<rparr>)"

definition handleVisibilityChange :: "nat \<Rightarrow> bool \<Rightarrow> dashboard \<Rightarrow> dashboard" where
  "handleVisibilityChange rc hidden s =
     (if hidden then
        (case intervalRef s of
           Some i \<Rightarrow> (clearTimer i s)\<lparr>intervalRef := None\<rparr>
         | None \<Rightarrow> s)
      else startPolling rc (fetchConfigStatus_call rc False s))"

definition cleanup :: "dashboard \<Rightarrow> dashboard" where
  "cleanup s =
     (let s1 = (case intervalRef s of Some i \<Rightarrow> clearTimer i s | None \<Rightarrow> s);
          s2 = (case retryTimeoutRef s1 of Some i \<Rightarrow> clearTimer i s1 | None \<Rightarrow> s1)
      in s2\<lparr>listener := None\<rparr>)"

definition effect :: "nat \<Rightarrow> dashboard \<Rightarrow> dashboard" where
  "effect rc s = (startPolling rc (fetchConfigStatus_call rc False s))\<lparr>listener := Some rc\<rparr>"

text \<open>
  After a callback React renders again. \<^verbatim>\<open>fetchConfigStatus\<close> is a new closure exactly when
  \<^verbatim>\<open>retryCount\<close> differs from the last render, and the effect (dependency
  \<^verbatim>\<open>[fetchConfigStatus]\<close>) then runs its cleanup and its body again.
\<close>

definition commit :: "nat \<Rightarrow> dashboard \<Rightarrow> dashboard" where
  "commit prev s = (if retryCount s = prev then s else effect (retryCount s) (cleanup s))"

subsection \<open>Events\<close>

datatype event =
  FetchDone nat outcome
  | TimerFires nat
  | VisibilityChange bool
  | ManualRefresh
  | Unmount

definition initial :: dashboard where
  "initial = \<lparr>configStatus = None, isLoading = True, lastUpdate = None, isRefreshing = False,
     retryCount = 0, error = None, intervalRef = None, retryTimeoutRef = None,
     timers = [], nextTimer = 1, requests = [], listener = None, mounted = True\<rparr>"

definition mount :: dashboard where
  "mount = effect 0 initial"

text \<open>
  The callback an event runs, \<open>None\<close> when the event cannot happen in the state (no such
  request or timer, no listener, the refresh button disabled by \<^verbatim>\<open>disabled={isRefreshing}\<close>).
  \<open>VisibilityChange h\<close> carries \<^verbatim>\<open>document.hidden\<close>. An interval stays armed when it
  fires, a timeout is gone.
\<close>

fun handler :: "event \<Rightarrow> dashboard \<Rightarrow> dashboard option" where
  "handler (FetchDone k r) s =
     (if k < length (requests s) then
        Some (fetchConfigStatus_settle (fst (requests s ! k)) (snd (requests s ! k)) r
               (s\<lparr>requests := take k (requests s) @ drop (Suc k) (requests s)\<rparr>))
      else None)"
| "handler (TimerFires i) s =
     (case map_of (timers s) i of
        None \<Rightarrow> None
      | Some (Interval rc) \<Rightarrow> Some (fetchConfigStatus_call rc False s)
      | Some (Timeout d rc) \<Rightarrow> Some (retryCallback rc (clearTimer i s)))"
| "handler (VisibilityChange h) s =
     (case listener s of
        None \<Rightarrow> None
      | Some rc \<Rightarrow> Some (handleVisibilityChange rc h s))"
| "handler ManualRefresh s =
     (if isRefreshing s then None else Some (handleManualRefresh (retryCount s) s))"
| "handler Unmount s = Some ((cleanup s)\<lparr>mounted := False\<rparr>)"

text \<open>
  One step of the mounted component; what happens after the unmount is not modelled.
\<close>

definition step :: "event \<Rightarrow> dashboard \<Rightarrow> dashboard option" where
  "step e s =
     (if \<not> mounted s then None
      else if e = Unmount then handler e s
      else map_option (commit (retryCount s)) (handler e s))"

fun run :: "event list \<Rightarrow> dashboard \<Rightarrow> dashboard option" where
  "run [] s = Some s"
| "run (e # es) s = (case step e s of None \<Rightarrow> None | Some s' \<Rightarrow> run es s')"

subsection \<open>Derived presentation\<close>

text \<open>A \<^verbatim>\<open>string | null\<close> in a condition: \<^verbatim>\<open>null\<close> and the empty string are falsy.\<close>

definition truthy :: "string option \<Rightarrow> bool" where
  "truthy e = (case e of None \<Rightarrow> False | Some m \<Rightarrow> m \<noteq> [])"

definition getStatusColor :: "dashboard \<Rightarrow> string" where
  "getStatusColor s =
     (if truthy (error s) then ''text-red-400''
      else case configStatus s of
        None \<Rightarrow> ''text-white/30''
      | Some c \<Rightarrow>
          if is_valid (validation c) then ''text-green-400''
          else if gemini_api_key_set c \<or> db_url_set c then ''text-yellow-400''
          else ''text-red-400'')"

datatype icon = Wifi | WifiOff | AlertCircle

definition getStatusIcon :: "dashboard \<Rightarrow> icon" where
  "getStatusIcon s =
     (if isLoading s \<or> isRefreshing s then Wifi
      else if truthy (error s) then WifiOff
      else case configStatus s of
        None \<Rightarrow> WifiOff
      | Some c \<Rightarrow> if is_valid (validation c) then Wifi else AlertCircle)"

subsection \<open>Invariants of the reachable states\<close>

text \<open>
  \<open>intervals\<close> are the armed poll timers. \<open>poll_inv\<close>: there is at most one, and
  \<^verbatim>\<open>intervalRef.current\<close> holds its id. \<open>fresh\<close>: every pending timer has an id the browser
  has already handed out. \<open>manual_inv\<close>: \<^verbatim>\<open>isRefreshing\<close> is true exactly while a manual
  request is in flight, and there is at most one.
\<close>

fun isInterval :: "timer \<Rightarrow> bool" where
  "isInterval (Interval rc) = True"
| "isInterval (Timeout d rc) = False"

definition intervals :: "dashboard \<Rightarrow> (nat \<times> timer) list" where
  "intervals s = filter (\<lambda>p. isInterval (snd p)) (timers s)"

definition poll_inv :: "dashboard \<Rightarrow> bool" where
  "poll_inv s = (length (intervals s) \<le> 1 \<and> list_all (\<lambda>p. intervalRef s = Some (fst p)) (intervals s))"

definition fresh :: "dashboard \<Rightarrow> bool" where
  "fresh s = list_all (\<lambda>p. fst p < nextTimer s) (timers s)"

definition manual_inv :: "dashboard \<Rightarrow> bool" where
  "manual_inv s = (isRefreshing s = list_ex snd (requests s) \<and> length (filter snd (requests s)) \<le> 1)"

subsection \<open>Some states of the running component\<close>

text \<open>
  Each of these states is reached from \<open>mount\<close> by the events given with it further down.
  \<open>failedOnce\<close>: the first request failed, its retry timer (id 2) is pending.
  \<open>retrying\<close>: that timer has fired. \<open>refreshing\<close>: the refresh button was then clicked.
  \<open>backingOff\<close>: instead, the second request issued at the firing failed.
  \<open>polling\<close>: the status was fetched and the request of a poll tick is in flight.
  \<open>lastAttempt\<close>: the status was fetched once, then every request failed and three retry
  timers have fired; the request of the closure with \<^verbatim>\<open>retryCount = 3\<close> is in flight.
  \<open>bothSetInvalid\<close>: a state showing a payload with both flags set and \<^verbatim>\<open>is_valid\<close> false.
\<close>

definition validStatus :: ConfigStatus where
  "validStatus = \<lparr>gemini_api_key_set = True, db_url_set = True, gemini_model = ''gemini-pro'',
     validation = \<lparr>is_valid = True, missing = []\<rparr>\<rparr>"

definition retrying :: dashboard where
  "retrying = \<lparr>configStatus = None, isLoading = True, lastUpdate = None, isRefreshing = False,
     retryCount = 1, error = Some ''Failed to fetch'', intervalRef = Some 3,
     retryTimeoutRef = Some 2, timers = [(3, Interval 1)], nextTimer = 4,
     requests = [(0, False), (1, False)], listener = Some 1, mounted = True\<rparr>"

definition refreshing :: dashboard where
  "refreshing = \<lparr>configStatus = None, isLoading = True, lastUpdate = None, isRefreshing = True,
     retryCount = 0, error = Some ''Failed to fetch'', intervalRef = Some 4,
     retryTimeoutRef = Some 2, timers = [(4, Interval 0)], nextTimer = 5,
     requests = [(0, False), (1, False), (1, True), (0, False)], listener = Some 0,
     mounted = True\<rparr>"

definition lastAttempt :: dashboard where
  "lastAttempt = \<lparr>configStatus = Some validStatus, isLoading = False, lastUpdate = Some 1,
     isRefreshing = False, retryCount = 3, error = Some ''Failed to fetch'',
     intervalRef = Some 9, retryTimeoutRef = Some 10,
     timers = [(9, Interval 3), (10, Timeout 2000 0)], nextTimer = 11,
     requests = [(3, False)], listener = Some 3, mounted = True\<rparr>"

definition bothSetInvalid :: dashboard where
  "bothSetInvalid = \<lparr>configStatus = Some \<lparr>gemini_api_key_set = True, db_url_set = True,
        gemini_model = ''gemini-pro'', validation = \<lparr>is_valid = False, missing = []\<rparr>\<rparr>,
     isLoading = False, lastUpdate = Some 1, isRefreshing = False,
     retryCount = 0, error = None, intervalRef = Some 1, retryTimeoutRef = None,
     timers = [(1, Interval 0)], nextTimer = 2, requests = [], listener = Some 0,
     mounted = True\<rparr>"

definition failedOnce :: dashboard where
  "failedOnce = \<lparr>configStatus = None, isLoading = True, lastUpdate = None, isRefreshing = False,
     retryCount = 0, error = Some ''Failed to fetch'', intervalRef = Some 1,
     retryTimeoutRef = Some 2, timers = [(1, Interval 0), (2, Timeout 2000 0)], nextTimer = 3,
     requests = [], listener = Some 0, mounted = True\<rparr>"

definition backingOff :: dashboard where
  "backingOff = \<lparr>configStatus = None, isLoading = True, lastUpdate = None, isRefreshing = False,
     retryCount = 1, error = Some ''Failed to fetch'', intervalRef = Some 3,
     retryTimeoutRef = Some 4, timers = [(3, Interval 1), (4, Timeout 4000 1)], nextTimer = 5,
     requests = [(0, False)], listener = Some 1, mounted = True\<rparr>"

definition polling :: dashboard where
  "polling = \<lparr>configStatus = Some validStatus, isLoading = False, lastUpdate = Some 1,
     isRefreshing = False, retryCount = 0, error = None, intervalRef = Some 1,
     retryTimeoutRef = None, timers = [(1, Interval 0)], nextTimer = 2,
     requests = [(0, False)], listener = Some 0, mounted = True\<rparr>"

subsection \<open>The five representations\<close>

datatype representation = Degraded | Disconnected | Healthy | PartiallyConfigured | Unconfigured

text \<open>
  \<open>spec_presentation\<close> is the branch in the words of the specification (an error that is
  present, a status that is absent, a valid status, exactly one of the two flags, anything
  else), to be compared with the code; \<open>presentation\<close> is the branch \<^verbatim>\<open>getStatusColor\<close> takes.
  \<open>colorOf\<close> and \<open>iconOf\<close> are the class name and the icon the source returns in each branch.
\<close>

definition spec_presentation :: "dashboard \<Rightarrow> representation" where
  "spec_presentation s =
     (if error s \<noteq> None then Degraded
      else case configStatus s of
        None \<Rightarrow> Disconnected
      | Some c \<Rightarrow>
          if is_valid (validation c) then Healthy
          else if gemini_api_key_set c \<noteq> db_url_set c then PartiallyConfigured
          else Unconfigured)"

definition presentation :: "dashboard \<Rightarrow> representation" where
  "presentation s =
     (if truthy (error s) then Degraded
      else case configStatus s of
        None \<Rightarrow> Disconnected
      | Some c \<Rightarrow>
          if is_valid (validation c) then Healthy
          else if gemini_api_key_set c \<or> db_url_set c then PartiallyConfigured
          else Unconfigured)"

fun colorOf :: "representation \<Rightarrow> string" where
  "colorOf Degraded = ''text-red-400''"
| "colorOf Disconnected = ''text-white/30''"
| "colorOf Healthy = ''text-green-400''"
| "colorOf PartiallyConfigured = ''text-yellow-400''"
| "colorOf Unconfigured = ''text-red-400''"

fun iconOf :: "representation \<Rightarrow> icon" where
  "iconOf Degraded = WifiOff"
| "iconOf Disconnected = WifiOff"
| "iconOf Healthy = Wifi"
| "iconOf PartiallyConfigured = AlertCircle"
| "iconOf Unconfigured = AlertCircle"

section \<open>The chat page (src/unnamed/part_000)\<close>

text \<open>
  \<^verbatim>\<open>handleSendMessage\<close> up to its first \<^verbatim>\<open>await\<close>: the guard, the user's message appended to
  \<^verbatim>\<open>messages\<close>, the input cleared, \<^verbatim>\<open>isLoading\<close> set and the request to \<^verbatim>\<open>/api/query\<close>
  issued (\<open>posted\<close> collects the questions sent). A JavaScript string is its sequence of
  UTF-16 code units; \<open>isWhiteSpace\<close> are the code units \<^verbatim>\<open>String.prototype.trim\<close> strips
  (white space and line terminators of ECMAScript). \<open>now\<close> is \<^verbatim>\<open>Date.now()\<close>; the id of a
  message is its decimal rendering. The optional fields of \<^verbatim>\<open>ChatMessage\<close> are options.
\<close>

type_synonym jsstring = "nat list"

definition isWhiteSpace :: "nat \<Rightarrow> bool" where
  "isWhiteSpace u =
     (u = 9 \<or> u = 10 \<or> u = 11 \<or> u = 12 \<or> u = 13 \<or> u = 32 \<or> u = 160 \<or> u = 5760
      \<or> (8192 \<le> u \<and> u \<le> 8202) \<or> u = 8232 \<or> u = 8233 \<or> u = 8239 \<or> u = 8287
      \<or> u = 12288 \<or> u = 65279)"

definition trim :: "jsstring \<Rightarrow> jsstring" where
  "trim str = rev (dropWhile isWhiteSpace (rev (dropWhile isWhiteSpace str)))"

datatype sender = User | Assistant

record metadata =
  rowCount :: "nat option"
  generatedSql :: "jsstring option"
  validatedSql :: "jsstring option"

record ChatMessage =
  id_msg :: nat
  text_msg :: jsstring
  sender :: sender
  timestamp :: nat
  isStreaming :: "bool option"
  hasTable :: "bool option"
  error_msg :: "jsstring option"
  metadata :: "metadata option"

record chat =
  messages :: "ChatMessage list"
  input :: jsstring
  isLoading_chat :: bool
  posted :: "jsstring list"

definition handleSendMessage :: "nat \<Rightarrow> chat \<Rightarrow> chat" where
  "handleSendMessage now s =
     (if trim (input s) = [] \<or> isLoading_chat s then s
      else
        (let userMessage = \<lparr>id_msg = now, text_msg = input s, sender = User, timestamp = now,
               isStreaming = None, hasTable = None, error_msg = None, metadata = None\<rparr>;
             userQuestion = input s
         in s\<lparr>messages := messages s @ [userMessage], input := [], isLoading_chat := True,
              posted := posted s @ [userQuestion]\<rparr>))"

text \<open>An earlier message of the assistant, for the examples (its text shortened).\<close>

definition greeting :: ChatMessage where
  "greeting = \<lparr>id_msg = 1, text_msg = [72, 101, 108, 108, 111, 33], sender = Assistant, timestamp = 0,
      isStreaming = None, hasTable = None, error_msg = None, metadata = None\<rparr>"

section \<open>Properties of the status monitor\<close>

subsection \<open>Basic facts\<close>

lemmas monitor_defs = setTimer_def clearTimer_def fetchConfigStatus_call_def
  fetchConfigStatus_settle_def retryCallback_def handleManualRefresh_def startPolling_def
  handleVisibilityChange_def cleanup_def effect_def commit_def

lemma commit_state:
  "configStatus (commit p s) = configStatus s"
  "isLoading (commit p s) = isLoading s"
  "lastUpdate (commit p s) = lastUpdate s"
  "isRefreshing (commit p s) = isRefreshing s"
  "retryCount (commit p s) = retryCount s"
  "error (commit p s) = error s"
  "mounted (commit p s) = mounted s"
  by (simp_all add: monitor_defs Let_def split: option.splits prod.splits)

lemma run_invariant:
  assumes "run es s0 = Some s" and "P s0"
    and "\<And>e t t'. P t \<Longrightarrow> step e t = Some t' \<Longrightarrow> P t'"
  shows "P s"
  using assms(1,2)
proof (induction es arbitrary: s0)
  case Nil
  then show ?case by simp
next
  case (Cons e es)
  then obtain s1 where s1: "step e s0 = Some s1" "run es s1 = Some s"
    by (auto split: option.splits)
  from assms(3)[OF Cons.prems(2) s1(1)] Cons.IH[OF s1(2)] show ?case by blast
qed

subsection \<open>At most one poll timer\<close>

lemma intervals_clearTimer: "intervals (clearTimer i s) = filter (\<lambda>p. fst p \<noteq> i) (intervals s)"
  by (auto simp: intervals_def clearTimer_def intro: filter_cong)

lemma poll_inv_clearTimer: "poll_inv s \<Longrightarrow> poll_inv (clearTimer i s)"
  unfolding poll_inv_def intervals_clearTimer
  by (auto simp: clearTimer_def list_all_iff intro: le_trans[OF length_filter_le])

lemma poll_inv_clear_ref:
  assumes "poll_inv s"
  shows "intervals (case intervalRef s of Some i \<Rightarrow> clearTimer i s | None \<Rightarrow> s) = []"
proof (cases "intervalRef s")
  case None
  with assms show ?thesis
    by (cases "intervals s") (simp_all add: poll_inv_def)
next
  case (Some i)
  with assms have "\<forall>p\<in>set (intervals s). fst p = i"
    by (simp add: poll_inv_def list_all_iff)
  then have "filter (\<lambda>p. fst p \<noteq> i) (intervals s) = []"
    by (simp add: filter_empty_conv)
  with Some show ?thesis by (simp add: intervals_clearTimer)
qed

lemma intervals_startPolling:
  assumes "poll_inv s"
  shows "intervals (startPolling rc s) = [(nextTimer s, Interval rc)]"
    and "intervalRef (startPolling rc s) = Some (nextTimer s)"
proof -
  let ?s1 = "case intervalRef s of Some i \<Rightarrow> clearTimer i s | None \<Rightarrow> s"
  have n: "nextTimer ?s1 = nextTimer s" by (simp add: clearTimer_def split: option.splits)
  have "intervals (startPolling rc s) = intervals ?s1 @ [(nextTimer ?s1, Interval rc)]"
    by (simp add: startPolling_def setTimer_def intervals_def Let_def)
  with poll_inv_clear_ref[OF assms] n
  show "intervals (startPolling rc s) = [(nextTimer s, Interval rc)]" by simp
  show "intervalRef (startPolling rc s) = Some (nextTimer s)"
    using n by (simp add: startPolling_def setTimer_def Let_def)
qed

lemma poll_inv_startPolling: "poll_inv s \<Longrightarrow> poll_inv (startPolling rc s)"
  by (simp add: poll_inv_def[of "startPolling rc s"] intervals_startPolling)

lemma poll_inv_call: "poll_inv (fetchConfigStatus_call rc m s) = poll_inv s"
  by (simp add: poll_inv_def intervals_def fetchConfigStatus_call_def Let_def)

lemma poll_inv_settle: "poll_inv s \<Longrightarrow> poll_inv (fetchConfigStatus_settle rc m r s)"
  by (cases r) (simp_all add: poll_inv_def intervals_def fetchConfigStatus_settle_def setTimer_def Let_def)

lemma poll_inv_cleanup: "poll_inv s \<Longrightarrow> poll_inv (cleanup s)"
proof -
  assume a: "poll_inv s"
  let ?s1 = "case intervalRef s of Some i \<Rightarrow> clearTimer i s | None \<Rightarrow> s"
  let ?s2 = "case retryTimeoutRef ?s1 of Some i \<Rightarrow> clearTimer i ?s1 | None \<Rightarrow> ?s1"
  have 1: "poll_inv ?s1" using a by (simp add: poll_inv_clearTimer split: option.splits)
  then have 2: "poll_inv ?s2" by (simp add: poll_inv_clearTimer split: option.splits)
  have "cleanup s = ?s2\<lparr>listener := None\<rparr>" by (simp add: cleanup_def Let_def)
  moreover have "poll_inv (?s2\<lparr>listener := None\<rparr>) = poll_inv ?s2"
    by (simp add: poll_inv_def intervals_def)
  ultimately show ?thesis using 2 by simp
qed

lemma poll_inv_effect: "poll_inv s \<Longrightarrow> poll_inv (effect rc s)"
proof -
  assume "poll_inv s"
  then have "poll_inv (startPolling rc (fetchConfigStatus_call rc False s))"
    by (simp add: poll_inv_startPolling poll_inv_call)
  then show ?thesis by (simp add: effect_def poll_inv_def intervals_def)
qed

lemma poll_inv_commit: "poll_inv s \<Longrightarrow> poll_inv (commit p s)"
  by (simp add: commit_def poll_inv_effect poll_inv_cleanup)

lemma poll_inv_visibility: "poll_inv s \<Longrightarrow> poll_inv (handleVisibilityChange rc h s)"
proof (cases h)
  case False
  assume "poll_inv s"
  then show ?thesis using False
    by (simp add: handleVisibilityChange_def poll_inv_startPolling poll_inv_call)
next
  case True
  assume a: "poll_inv s"
  show ?thesis
  proof (cases "intervalRef s")
    case None
    then show ?thesis using a True by (simp add: handleVisibilityChange_def)
  next
    case (Some i)
    have "intervals (clearTimer i s) = []" using poll_inv_clear_ref[OF a] Some by simp
    then have "poll_inv ((clearTimer i s)\<lparr>intervalRef := None\<rparr>)"
      by (simp add: poll_inv_def intervals_def)
    then show ?thesis using True Some by (simp add: handleVisibilityChange_def)
  qed
qed

lemma poll_inv_handler:
  assumes "poll_inv s" and "handler e s = Some s'"
  shows "poll_inv s'"
proof (cases e)
  case (FetchDone k r)
  have "poll_inv (s\<lparr>requests := take k (requests s) @ drop (Suc k) (requests s)\<rparr>)"
    using assms(1) by (simp add: poll_inv_def intervals_def)
  from poll_inv_settle[OF this] assms(2) FetchDone show ?thesis
    by (auto split: if_splits)
next
  case (TimerFires i)
  have "poll_inv (retryCallback rc (clearTimer i s))" for rc
    using poll_inv_clearTimer[OF assms(1), of i]
    by (simp add: retryCallback_def fetchConfigStatus_call_def poll_inv_def intervals_def Let_def)
  then show ?thesis using assms TimerFires
    by (auto simp: poll_inv_call split: option.splits timer.splits)
next
  case (VisibilityChange h)
  then show ?thesis using assms by (auto simp: poll_inv_visibility split: option.splits)
next
  case ManualRefresh
  have "poll_inv (handleManualRefresh rc s)" for rc
    using assms(1)
    by (simp add: handleManualRefresh_def fetchConfigStatus_call_def poll_inv_def intervals_def Let_def)
  then show ?thesis using assms ManualRefresh by (auto split: if_splits)
next
  case Unmount
  have "poll_inv ((cleanup s)\<lparr>mounted := False\<rparr>) = poll_inv (cleanup s)"
    by (simp add: poll_inv_def intervals_def)
  then show ?thesis using assms Unmount poll_inv_cleanup by auto
qed

lemma poll_inv_step:
  assumes "poll_inv s" and "step e s = Some s'"
  shows "poll_inv s'"
proof (cases "e = Unmount")
  case True
  with assms(2) have "handler e s = Some s'" by (simp add: step_def split: if_splits)
  with assms(1) show ?thesis by (rule poll_inv_handler)
next
  case False
  with assms(2) obtain t where t: "handler e s = Some t" "s' = commit (retryCount s) t"
    by (auto simp: step_def split: if_splits)
  from poll_inv_handler[OF assms(1) t(1)] t(2) show ?thesis by (simp add: poll_inv_commit)
qed

lemma poll_inv_mount: "poll_inv mount"
  by (simp add: mount_def initial_def poll_inv_def intervals_def monitor_defs Let_def)

lemma poll_inv_reachable: "run es mount = Some s \<Longrightarrow> poll_inv s"
  by (rule run_invariant[where P = poll_inv, OF _ poll_inv_mount poll_inv_step])


text \<open>
  C9: starting the periodic poll is idempotent. In every state the mounted component can
  reach there is at most one armed poll timer, and \<^verbatim>\<open>startPolling\<close> there clears the timer
  \<^verbatim>\<open>intervalRef.current\<close> holds before it arms the new one: afterwards the only armed poll
  timer is the new one, and the ref holds its id.
\<close>

theorem startPolling_single_interval:
  assumes "run es mount = Some s"
  shows "length (intervals s) \<le> 1
    \<and> intervals (startPolling rc s) = [(nextTimer s, Interval rc)]
    \<and> intervalRef (startPolling rc s) = Some (nextTimer s)"
  using poll_inv_reachable[OF assms] intervals_startPolling[of s rc]
  by (simp add: poll_inv_def)

text \<open>
  The tab becomes visible while the poll timer of the mount (id 1) is armed: the handler
  starts polling again, and one more start still leaves a single timer.
\<close>

theorem startPolling_single_interval_witness:
  "run [VisibilityChange False] mount = Some (handleVisibilityChange 0 False mount)
   \<and> intervals (handleVisibilityChange 0 False mount) = [(2, Interval 0)]
   \<and> length (intervals (handleVisibilityChange 0 False mount)) \<le> 1
   \<and> intervals (startPolling 0 (handleVisibilityChange 0 False mount)) = [(3, Interval 0)]
   \<and> intervalRef (startPolling 0 (handleVisibilityChange 0 False mount)) = Some 3"
proof -
  have r: "run [VisibilityChange False] mount = Some (handleVisibilityChange 0 False mount)"
    by (simp add: step_def mount_def initial_def monitor_defs Let_def)
  have n: "nextTimer (handleVisibilityChange 0 False mount) = 3"
    by (simp add: mount_def initial_def monitor_defs Let_def)
  have i: "intervals (handleVisibilityChange 0 False mount) = [(2, Interval 0)]"
    by (simp add: intervals_def mount_def initial_def monitor_defs Let_def)
  show ?thesis
    using startPolling_single_interval[OF r, of 0] r n i by simp
qed

subsection \<open>Fresh timer ids\<close>

lemma fresh_clearTimer: "fresh s \<Longrightarrow> fresh (clearTimer i s)"
  by (simp add: fresh_def clearTimer_def list_all_iff)

lemma fresh_clear_opt: "fresh s \<Longrightarrow> fresh (case r of Some i \<Rightarrow> clearTimer i s | None \<Rightarrow> s)"
  by (simp add: fresh_clearTimer split: option.splits)

lemma fresh_setTimer: "fresh s \<Longrightarrow> fresh (snd (setTimer t s))"
  by (auto simp: fresh_def setTimer_def list_all_iff)

lemma fresh_call: "fresh (fetchConfigStatus_call rc m s) = fresh s"
  by (simp add: fresh_def fetchConfigStatus_call_def Let_def)

lemma fresh_settle: "fresh s \<Longrightarrow> fresh (fetchConfigStatus_settle rc m r s)"
  by (cases r) (auto simp: fresh_def fetchConfigStatus_settle_def setTimer_def Let_def list_all_iff)

lemma fresh_startPolling: "fresh s \<Longrightarrow> fresh (startPolling rc s)"
  by (auto simp: fresh_def startPolling_def setTimer_def clearTimer_def Let_def list_all_iff
      split: option.splits)

lemma fresh_cleanup: "fresh s \<Longrightarrow> fresh (cleanup s)"
  by (auto simp: fresh_def cleanup_def clearTimer_def Let_def list_all_iff split: option.splits)

lemma fresh_effect: "fresh s \<Longrightarrow> fresh (effect rc s)"
proof -
  assume "fresh s"
  then have "fresh (startPolling rc (fetchConfigStatus_call rc False s))"
    by (simp add: fresh_startPolling fresh_call)
  then show ?thesis by (simp add: effect_def fresh_def)
qed

lemma fresh_commit: "fresh s \<Longrightarrow> fresh (commit p s)"
  by (simp add: commit_def fresh_effect fresh_cleanup)

lemma fresh_visibility: "fresh s \<Longrightarrow> fresh (handleVisibilityChange rc h s)"
proof (cases h)
  case False
  assume "fresh s"
  then show ?thesis using False
    by (simp add: handleVisibilityChange_def fresh_startPolling fresh_call)
next
  case True
  assume "fresh s"
  then show ?thesis using True
    by (auto simp: handleVisibilityChange_def fresh_def clearTimer_def list_all_iff
        split: option.splits)
qed

lemma fresh_handler:
  assumes "fresh s" and "handler e s = Some s'"
  shows "fresh s'"
proof (cases e)
  case (FetchDone k r)
  have "fresh (s\<lparr>requests := take k (requests s) @ drop (Suc k) (requests s)\<rparr>)"
    using assms(1) by (simp add: fresh_def)
  from fresh_settle[OF this] assms(2) FetchDone show ?thesis
    by (auto split: if_splits)
next
  case (TimerFires i)
  have "fresh (retryCallback rc (clearTimer i s))" for rc
    using fresh_clearTimer[OF assms(1), of i]
    by (simp add: retryCallback_def fetchConfigStatus_call_def fresh_def Let_def)
  then show ?thesis using assms TimerFires
    by (auto simp: fresh_call split: option.splits timer.splits)
next
  case (VisibilityChange h)
  then show ?thesis using assms by (auto simp: fresh_visibility split: option.splits)
next
  case ManualRefresh
  have "fresh (handleManualRefresh rc s)" for rc
    using assms(1)
    by (simp add: handleManualRefresh_def fetchConfigStatus_call_def fresh_def Let_def)
  then show ?thesis using assms ManualRefresh by (auto split: if_splits)
next
  case Unmount
  have "fresh ((cleanup s)\<lparr>mounted := False\<rparr>) = fresh (cleanup s)"
    by (simp add: fresh_def)
  then show ?thesis using assms Unmount fresh_cleanup by auto
qed

lemma step_cases:
  assumes "step e s = Some s'"
  obtains "e = Unmount" and "handler e s = Some s'"
  | t where "e \<noteq> Unmount" and "handler e s = Some t" and "s' = commit (retryCount s) t"
  using assms by (auto simp: step_def split: if_splits)

lemma fresh_step:
  assumes "fresh s" and "step e s = Some s'"
  shows "fresh s'"
  using assms(2)
proof (cases rule: step_cases)
  case 1
  with assms(1) show ?thesis using fresh_handler by blast
next
  case (2 t)
  from fresh_handler[OF assms(1) 2(2)] 2(3) show ?thesis by (simp add: fresh_commit)
qed

lemma fresh_mount: "fresh mount"
  by (simp add: mount_def initial_def fresh_def monitor_defs Let_def)

lemma fresh_reachable: "run es mount = Some s \<Longrightarrow> fresh s"
  by (rule run_invariant[where P = fresh, OF _ fresh_mount fresh_step])

lemma fresh_map_of: "fresh s \<Longrightarrow> map_of (timers s @ [(nextTimer s, t)]) (nextTimer s) = Some t"
proof -
  assume "fresh s"
  then have "nextTimer s \<notin> fst ` set (timers s)"
    by (auto simp: fresh_def list_all_iff)
  then have "map_of (timers s) (nextTimer s) = None"
    by (simp add: map_of_eq_None_iff)
  then show ?thesis by (simp add: map_add_def)
qed

subsection \<open>Failed fetches and the retry timer\<close>

lemma step_failure_retry:
  assumes "mounted s" and "k < length (requests s)" and "fst (requests s ! k) < MAX_RETRIES"
  shows "step (FetchDone k (Failure msg)) s =
     Some (s\<lparr>requests := take k (requests s) @ drop (Suc k) (requests s),
             error := Some msg,
             isRefreshing := (if snd (requests s ! k) then False else isRefreshing s),
             timers := timers s @ [(nextTimer s,
                Timeout (RETRY_DELAY * 2 ^ fst (requests s ! k)) (fst (requests s ! k)))],
             nextTimer := Suc (nextTimer s),
             retryTimeoutRef := Some (nextTimer s)\<rparr>)"
  using assms
  by (simp add: step_def commit_def fetchConfigStatus_settle_def setTimer_def Let_def)

lemma step_retry_fires:
  assumes "mounted t" and "map_of (timers t) i = Some (Timeout d rc)"
  shows "\<exists>t'. step (TimerFires i) t = Some t' \<and> retryCount t' = retryCount t + 1
     \<and> requests t' = requests t @ [(rc, False), (retryCount t + 1, False)]"
  using assms
  by (simp add: step_def monitor_defs Let_def split: option.splits)

lemma mount_eq:
  "mount = \<lparr>configStatus = None, isLoading = True, lastUpdate = None, isRefreshing = False,
     retryCount = 0, error = None, intervalRef = Some 1, retryTimeoutRef = None,
     timers = [(1, Interval 0)], nextTimer = 2, requests = [(0, False)], listener = Some 0,
     mounted = True\<rparr>"
  by (simp add: mount_def initial_def monitor_defs Let_def)

text \<open>
  What one failed request does, in terms of the \<^verbatim>\<open>retryCount\<close> its own closure reads (the
  first component of the request, which need not be the state variable): below
  \<open>MAX_RETRIES\<close> it schedules exactly one timer with the delay of that value, and the firing
  of the timer adds one to the state variable, issues a request of the same closure and,
  through the re-run effect, a request of the new closure.
\<close>

lemma failure_schedules_retry_of_closure:
  assumes "run es mount = Some s" and "mounted s" and "k < length (requests s)"
    and "fst (requests s ! k) < MAX_RETRIES"
  shows "\<exists>s'. step (FetchDone k (Failure msg)) s = Some s'
     \<and> timers s' = timers s @ [(nextTimer s,
          Timeout (RETRY_DELAY * 2 ^ fst (requests s ! k)) (fst (requests s ! k)))]
     \<and> retryTimeoutRef s' = Some (nextTimer s)
     \<and> retryCount s' = retryCount s
     \<and> (\<exists>s''. step (TimerFires (nextTimer s)) s' = Some s''
          \<and> retryCount s'' = retryCount s + 1
          \<and> requests s'' = requests s' @ [(fst (requests s ! k), False), (retryCount s + 1, False)])"
proof -
  let ?T = "Timeout (RETRY_DELAY * 2 ^ fst (requests s ! k)) (fst (requests s ! k))"
  obtain s' where s': "step (FetchDone k (Failure msg)) s = Some s'"
    and tm: "timers s' = timers s @ [(nextTimer s, ?T)]"
    and rest: "retryTimeoutRef s' = Some (nextTimer s)" "retryCount s' = retryCount s" "mounted s'"
    using step_failure_retry[OF assms(2,3,4), of msg] assms(2) by simp
  have "map_of (timers s') (nextTimer s) = Some ?T"
    unfolding tm using fresh_reachable[OF assms(1)] by (rule fresh_map_of)
  from step_retry_fires[OF rest(3) this] rest(2)
  obtain s'' where "step (TimerFires (nextTimer s)) s' = Some s''"
    "retryCount s'' = retryCount s + 1"
    "requests s'' = requests s' @ [(fst (requests s ! k), False), (retryCount s + 1, False)]"
    by auto
  with s' tm rest show ?thesis by blast
qed


subsection \<open>Manual refresh\<close>

lemma list_ex_filter: "list_ex P xs = (filter P xs \<noteq> [])"
  by (simp add: list_ex_iff filter_empty_conv)

lemma filter_remove_nth:
  assumes "k < length xs"
  shows "filter P xs = filter P (take k xs) @ (if P (xs ! k) then [xs ! k] else []) @ filter P (drop (Suc k) xs)"
proof -
  have "xs = take k xs @ xs ! k # drop (Suc k) xs"
    using assms by (rule id_take_nth_drop)
  then have "filter P xs = filter P (take k xs @ xs ! k # drop (Suc k) xs)" by simp
  then show ?thesis by simp
qed

lemma manual_inv_call_auto: "manual_inv (fetchConfigStatus_call rc False s) = manual_inv s"
  by (simp add: manual_inv_def fetchConfigStatus_call_def Let_def list_ex_filter)

lemma manual_inv_call_manual:
  assumes "manual_inv s" and "\<not> isRefreshing s"
  shows "manual_inv (fetchConfigStatus_call rc True s)"
    and "filter snd (requests (fetchConfigStatus_call rc True s)) = [(rc, True)]"
  using assms by (simp_all add: manual_inv_def fetchConfigStatus_call_def Let_def list_ex_filter)

lemma manual_inv_timers [simp]:
  "manual_inv (clearTimer i s) = manual_inv s"
  "manual_inv (snd (setTimer t s)) = manual_inv s"
  by (simp_all add: manual_inv_def clearTimer_def setTimer_def)

lemma manual_inv_startPolling: "manual_inv (startPolling rc s) = manual_inv s"
  by (simp add: manual_inv_def startPolling_def setTimer_def clearTimer_def Let_def split: option.splits)

lemma manual_inv_cleanup: "manual_inv (cleanup s) = manual_inv s"
  by (simp add: manual_inv_def cleanup_def clearTimer_def Let_def split: option.splits)

lemma manual_inv_effect: "manual_inv (effect rc s) = manual_inv s"
proof -
  have "manual_inv (effect rc s) = manual_inv (startPolling rc (fetchConfigStatus_call rc False s))"
    by (simp add: effect_def manual_inv_def)
  then show ?thesis by (simp add: manual_inv_startPolling manual_inv_call_auto)
qed

lemma manual_inv_commit: "manual_inv (commit p s) = manual_inv s"
  by (simp add: commit_def manual_inv_effect manual_inv_cleanup)

lemma settle_requests:
  "requests (fetchConfigStatus_settle rc m r s) = requests s"
  by (cases r) (simp_all add: fetchConfigStatus_settle_def setTimer_def Let_def)

lemma settle_isRefreshing:
  "isRefreshing (fetchConfigStatus_settle rc m r s) = (if m then False else isRefreshing s)"
  by (cases r) (simp_all add: fetchConfigStatus_settle_def setTimer_def Let_def)

lemma manual_inv_settle:
  assumes "manual_inv s" and "k < length (requests s)"
  shows "manual_inv (fetchConfigStatus_settle (fst (requests s ! k)) (snd (requests s ! k)) r
            (s\<lparr>requests := take k (requests s) @ drop (Suc k) (requests s)\<rparr>))"
proof -
  let ?xs = "requests s"
  let ?ys = "take k ?xs @ drop (Suc k) ?xs"
  have split: "filter snd ?xs = filter snd (take k ?xs)
      @ (if snd (?xs ! k) then [?xs ! k] else []) @ filter snd (drop (Suc k) ?xs)"
    using assms(2) by (rule filter_remove_nth)
  have le: "length (filter snd ?xs) \<le> 1" and ref: "isRefreshing s = (filter snd ?xs \<noteq> [])"
    using assms(1) by (simp_all add: manual_inv_def list_ex_filter)
  show ?thesis
  proof (cases "snd (?xs ! k)")
    case True
    with split le have "filter snd ?ys = []" by simp
    with True show ?thesis
      by (simp add: manual_inv_def settle_requests settle_isRefreshing list_ex_filter)
  next
    case False
    with split have "filter snd ?ys = filter snd ?xs" by simp
    with False le ref show ?thesis
      by (simp add: manual_inv_def settle_requests settle_isRefreshing list_ex_filter)
  qed
qed

lemma manual_inv_visibility: "manual_inv (handleVisibilityChange rc h s) = manual_inv s"
proof (cases h)
  case True
  then show ?thesis
    by (simp add: handleVisibilityChange_def manual_inv_def clearTimer_def split: option.splits)
next
  case False
  then show ?thesis
    by (simp add: handleVisibilityChange_def manual_inv_startPolling manual_inv_call_auto)
qed

lemma manual_inv_handler:
  assumes "manual_inv s" and "handler e s = Some s'"
  shows "manual_inv s'"
proof (cases e)
  case (FetchDone k r)
  with assms(2) have "k < length (requests s)" by (simp split: if_splits)
  from manual_inv_settle[OF assms(1) this, of r] assms(2) FetchDone show ?thesis
    by (auto split: if_splits)
next
  case (TimerFires i)
  have "manual_inv (retryCallback rc (clearTimer i s))" for rc
    using assms(1)
    by (simp add: retryCallback_def fetchConfigStatus_call_def manual_inv_def clearTimer_def
        Let_def list_ex_filter)
  then show ?thesis using assms TimerFires
    by (auto simp: manual_inv_call_auto split: option.splits timer.splits)
next
  case (VisibilityChange h)
  then show ?thesis using assms by (auto simp: manual_inv_visibility split: option.splits)
next
  case ManualRefresh
  with assms(2) have nr: "\<not> isRefreshing s" and s': "s' = handleManualRefresh (retryCount s) s"
    by (auto split: if_splits)
  have "manual_inv (s\<lparr>retryCount := 0\<rparr>)" "\<not> isRefreshing (s\<lparr>retryCount := 0\<rparr>)"
    using assms(1) nr by (simp_all add: manual_inv_def)
  from manual_inv_call_manual(1)[OF this] s' show ?thesis
    by (simp add: handleManualRefresh_def)
next
  case Unmount
  have "manual_inv ((cleanup s)\<lparr>mounted := False\<rparr>) = manual_inv (cleanup s)"
    by (simp add: manual_inv_def)
  then show ?thesis using assms Unmount by (auto simp: manual_inv_cleanup)
qed

lemma manual_inv_step:
  assumes "manual_inv s" and "step e s = Some s'"
  shows "manual_inv s'"
  using assms(2)
proof (cases rule: step_cases)
  case 1
  with assms(1) show ?thesis using manual_inv_handler by blast
next
  case (2 t)
  from manual_inv_handler[OF assms(1) 2(2)] 2(3) show ?thesis by (simp add: manual_inv_commit)
qed

lemma manual_inv_mount: "manual_inv mount"
  by (simp add: mount_eq manual_inv_def)

lemma manual_inv_reachable: "run es mount = Some s \<Longrightarrow> manual_inv s"
  by (rule run_invariant[where P = manual_inv, OF _ manual_inv_mount manual_inv_step])

lemma commit_requests_filter: "filter snd (requests (commit p s)) = filter snd (requests s)"
  by (simp add: monitor_defs Let_def split: option.splits)

lemmas run_defs = step_def monitor_defs Let_def MAX_RETRIES_def RETRY_DELAY_def

lemma run_retrying:
  "run [FetchDone 0 (Failure ''Failed to fetch''), TimerFires 2] mount = Some retrying"
  by (simp add: mount_eq retrying_def run_defs)

lemma run_refreshing:
  "run [FetchDone 0 (Failure ''Failed to fetch''), TimerFires 2, ManualRefresh] mount
     = Some refreshing"
  by (simp add: mount_eq refreshing_def run_defs)

text \<open>
  What the click does to the state: in every state the mounted component can reach,
  \<^verbatim>\<open>isRefreshing\<close> is true exactly while a manual request is in flight; the click sets the
  state variable \<^verbatim>\<open>retryCount\<close> to 0 and \<^verbatim>\<open>isRefreshing\<close> to true and puts exactly one manual
  request in flight, which carries the \<^verbatim>\<open>retryCount\<close> of before the click; when a manual
  request settles, with either outcome, \<^verbatim>\<open>isRefreshing\<close> is false again.
\<close>

lemma manual_refresh_isRefreshing:
  assumes "run es mount = Some s" and "mounted s"
  shows "isRefreshing s = list_ex snd (requests s)
    \<and> (\<not> isRefreshing s \<longrightarrow>
         (\<exists>s'. step ManualRefresh s = Some s' \<and> retryCount s' = 0 \<and> isRefreshing s'
            \<and> filter snd (requests s') = [(retryCount s, True)]))
    \<and> (\<forall>k r. k < length (requests s) \<and> snd (requests s ! k) \<longrightarrow>
         (\<exists>s'. step (FetchDone k r) s = Some s' \<and> \<not> isRefreshing s'
            \<and> filter snd (requests s') = []))"
proof (intro conjI impI allI)
  note inv = manual_inv_reachable[OF assms(1)]
  show "isRefreshing s = list_ex snd (requests s)"
    using inv by (simp add: manual_inv_def)
  show "\<exists>s'. step ManualRefresh s = Some s' \<and> retryCount s' = 0 \<and> isRefreshing s'
            \<and> filter snd (requests s') = [(retryCount s, True)]" if nr: "\<not> isRefreshing s"
  proof -
    let ?t = "handleManualRefresh (retryCount s) s"
    have st: "step ManualRefresh s = Some (commit (retryCount s) ?t)"
      using assms(2) nr by (simp add: step_def)
    have "manual_inv (s\<lparr>retryCount := 0\<rparr>)" "\<not> isRefreshing (s\<lparr>retryCount := 0\<rparr>)"
      using inv nr by (simp_all add: manual_inv_def)
    from manual_inv_call_manual(2)[OF this, of "retryCount s"]
    have "filter snd (requests ?t) = [(retryCount s, True)]"
      by (simp add: handleManualRefresh_def)
    moreover have "retryCount ?t = 0" "isRefreshing ?t"
      by (simp_all add: handleManualRefresh_def fetchConfigStatus_call_def Let_def)
    ultimately show ?thesis using st
      by (simp add: commit_state commit_requests_filter)
  qed
  show "\<exists>s'. step (FetchDone k r) s = Some s' \<and> \<not> isRefreshing s'
            \<and> filter snd (requests s') = []"
    if h: "k < length (requests s) \<and> snd (requests s ! k)" for k r
  proof -
    let ?t = "fetchConfigStatus_settle (fst (requests s ! k)) (snd (requests s ! k)) r
            (s\<lparr>requests := take k (requests s) @ drop (Suc k) (requests s)\<rparr>)"
    have st: "step (FetchDone k r) s = Some (commit (retryCount s) ?t)"
      using assms(2) h by (simp add: step_def)
    have "manual_inv ?t" using h by (intro manual_inv_settle[OF inv]) simp
    moreover have "\<not> isRefreshing ?t" using h by (simp add: settle_isRefreshing)
    ultimately have "filter snd (requests ?t) = []"
      by (simp add: manual_inv_def list_ex_filter)
    with \<open>\<not> isRefreshing ?t\<close> st show ?thesis
      by (simp add: commit_state commit_requests_filter)
  qed
qed


subsection \<open>Successful fetches\<close>

text \<open>
  C4: when a request settles with success, the step sets \<^verbatim>\<open>configStatus\<close> to the parsed
  payload, \<^verbatim>\<open>lastUpdate\<close> to the current time, \<^verbatim>\<open>error\<close> to null, \<^verbatim>\<open>retryCount\<close> to 0 and
  \<^verbatim>\<open>isLoading\<close> to false; \<^verbatim>\<open>isRefreshing\<close> becomes false if the request was a manual
  refresh and is left as it was otherwise.
\<close>

theorem fetch_success_updates_state:
  assumes "mounted s" and "k < length (requests s)"
  shows "\<exists>s'. step (FetchDone k (Success d now)) s = Some s'
     \<and> configStatus s' = Some d \<and> lastUpdate s' = Some now \<and> error s' = None
     \<and> retryCount s' = 0 \<and> isLoading s' = False
     \<and> isRefreshing s' = (if snd (requests s ! k) then False else isRefreshing s)"
  using assms
  by (simp add: step_def commit_state fetchConfigStatus_settle_def Let_def)

text \<open>The manual request of \<open>refreshing\<close> (the third in flight) succeeds.\<close>

theorem fetch_success_updates_state_witness:
  "mounted refreshing \<and> 2 < length (requests refreshing) \<and> snd (requests refreshing ! 2)
   \<and> (\<exists>s'. step (FetchDone 2 (Success validStatus 1700000000000)) refreshing = Some s'
     \<and> configStatus s' = Some validStatus \<and> lastUpdate s' = Some 1700000000000
     \<and> error s' = None \<and> retryCount s' = 0 \<and> isLoading s' = False
     \<and> isRefreshing s' = False)"
  using fetch_success_updates_state[of refreshing 2 validStatus 1700000000000]
  by (simp add: refreshing_def)

subsection \<open>The exhausted retry budget\<close>

text \<open>
  C3, as the code has it: a fetch that fails while the \<^verbatim>\<open>retryCount\<close> its closure reads has
  reached \<open>MAX_RETRIES\<close> (the first attempt and three retries have failed) sets
  \<^verbatim>\<open>configStatus\<close> to null and \<^verbatim>\<open>isLoading\<close> to false, records the error, schedules no timer
  (the pending timers are as before) and leaves \<^verbatim>\<open>retryCount\<close> as it is.
\<close>

theorem exhausted_fetch_clears_status:
  assumes "mounted s" and "k < length (requests s)" and "MAX_RETRIES \<le> fst (requests s ! k)"
  shows "\<exists>s'. step (FetchDone k (Failure msg)) s = Some s'
     \<and> configStatus s' = None \<and> isLoading s' = False \<and> error s' = Some msg
     \<and> timers s' = timers s \<and> retryCount s' = retryCount s"
  using assms
  by (simp add: step_def commit_def fetchConfigStatus_settle_def Let_def)

lemma run_lastAttempt:
  "run [FetchDone 0 (Success validStatus 1), TimerFires 1,
        FetchDone 0 (Failure ''Failed to fetch''), TimerFires 2,
        FetchDone 0 (Failure ''Failed to fetch''), FetchDone 0 (Failure ''Failed to fetch''),
        TimerFires 4,
        FetchDone 0 (Failure ''Failed to fetch''), FetchDone 0 (Failure ''Failed to fetch''),
        TimerFires 7,
        FetchDone 0 (Failure ''Failed to fetch'')] mount = Some lastAttempt"
  by (simp add: mount_eq lastAttempt_def run_defs)

text \<open>
  In \<open>lastAttempt\<close> the request in flight was issued by the closure with
  \<^verbatim>\<open>retryCount = 3\<close>; the status fetched earlier is still shown until it fails.
\<close>

theorem exhausted_fetch_clears_status_witness:
  "mounted lastAttempt \<and> 0 < length (requests lastAttempt)
   \<and> MAX_RETRIES \<le> fst (requests lastAttempt ! 0)
   \<and> configStatus lastAttempt = Some validStatus
   \<and> (\<exists>s'. step (FetchDone 0 (Failure ''Failed to fetch'')) lastAttempt = Some s'
     \<and> configStatus s' = None \<and> isLoading s' = False \<and> error s' = Some ''Failed to fetch''
     \<and> timers s' = [(9, Interval 3), (10, Timeout 2000 0)] \<and> retryCount s' = 3)"
  using exhausted_fetch_clears_status[of lastAttempt 0 "''Failed to fetch''"]
  by (simp add: lastAttempt_def MAX_RETRIES_def)

text \<open>
  C3 as stated fails: the status is fetched, then a poll tick's request fails, its retry
  timer fires and the two requests issued then fail as well. After these three
  consecutive failures \<^verbatim>\<open>configStatus\<close> still holds the status, and two retry timers are
  pending.
\<close>

theorem three_failures_keep_status:
  "map_option configStatus
     (run [FetchDone 0 (Success validStatus 1), TimerFires 1,
           FetchDone 0 (Failure ''Failed to fetch''), TimerFires 2,
           FetchDone 0 (Failure ''Failed to fetch''),
           FetchDone 0 (Failure ''Failed to fetch'')] mount) = Some (Some validStatus)
   \<and> map_option timers
     (run [FetchDone 0 (Success validStatus 1), TimerFires 1,
           FetchDone 0 (Failure ''Failed to fetch''), TimerFires 2,
           FetchDone 0 (Failure ''Failed to fetch''),
           FetchDone 0 (Failure ''Failed to fetch'')] mount)
       = Some [(3, Interval 1), (4, Timeout 2000 0), (5, Timeout 4000 1)]"
  by (simp add: mount_eq run_defs)

text \<open>
  After the exhausted failure in \<open>lastAttempt\<close> the retry timer 10, scheduled by a request of
  the first closure, is still pending; when it fires \<^verbatim>\<open>retryCount\<close> becomes 4.
\<close>

lemma pending_retry_exceeds_MAX_RETRIES:
  "map_option retryCount
     (run [FetchDone 0 (Failure ''Failed to fetch''), TimerFires 10] lastAttempt) = Some 4"
  by (simp add: lastAttempt_def run_defs)

subsection \<open>Requests that read an earlier retryCount\<close>

text \<open>
  C1 at its failing input. The first request fails and its retry timer fires, so
  \<^verbatim>\<open>retryCount\<close> is 1 (state \<open>retrying\<close>); the retry request, issued by the closure that
  scheduled it, still reads 0. It fails while \<^verbatim>\<open>retryCount = 1 < MAX_RETRIES\<close>, and the retry
  it schedules has delay 2000, not \<open>RETRY_DELAY * 2 ^ 1 = 4000\<close>; when the request of the
  re-run effect fails as well a second retry is pending beside it. From \<open>lastAttempt\<close>: a
  poll tick's request succeeds, which sets \<^verbatim>\<open>retryCount\<close> to 0, and then the request of the
  closure with \<^verbatim>\<open>retryCount = 3\<close> fails: no retry is scheduled, the only timer being the
  poll timer.
\<close>

theorem stale_retry_keeps_first_delay:
  "run [FetchDone 0 (Failure ''Failed to fetch''), TimerFires 2] mount = Some retrying
   \<and> retryCount retrying = 1 \<and> requests retrying = [(0, False), (1, False)]
   \<and> map_option retryCount (run [FetchDone 0 (Failure ''Failed to fetch'')] retrying) = Some 1
   \<and> map_option timers (run [FetchDone 0 (Failure ''Failed to fetch'')] retrying)
       = Some [(3, Interval 1), (4, Timeout 2000 0)]
   \<and> map_option timers
        (run [FetchDone 0 (Failure ''Failed to fetch''),
              FetchDone 0 (Failure ''Failed to fetch'')] retrying)
       = Some [(3, Interval 1), (4, Timeout 2000 0), (5, Timeout 4000 1)]
   \<and> map_option retryCount
        (run [TimerFires 9, FetchDone 0 (Success validStatus 2)] lastAttempt) = Some 0
   \<and> map_option requests
        (run [TimerFires 9, FetchDone 0 (Success validStatus 2)] lastAttempt)
       = Some [(3, False), (0, False)]
   \<and> map_option timers
        (run [TimerFires 9, FetchDone 0 (Success validStatus 2)] lastAttempt)
       = Some [(11, Interval 0)]
   \<and> map_option timers
        (run [TimerFires 9, FetchDone 0 (Success validStatus 2),
              FetchDone 0 (Failure ''Failed to fetch'')] lastAttempt)
       = Some [(11, Interval 0)]"
  by (intro conjI, rule run_retrying) (simp_all add: retrying_def lastAttempt_def run_defs)

text \<open>
  C7 at its failing input. In \<open>lastAttempt\<close> \<^verbatim>\<open>retryCount\<close> is 3 and the fetched status is
  shown. The click sets the state variable to 0, but the manual request (the second in
  flight) was issued by the closure of the render before the click and reads 3: when it
  fails it takes the exhausted branch, so \<^verbatim>\<open>configStatus\<close> becomes null and no retry is
  scheduled. In \<open>retrying\<close> (\<^verbatim>\<open>retryCount = 1\<close>) the failed manual request (the third in
  flight) schedules its retry with delay 4000, the delay of 1, not of 0.
\<close>

theorem manual_request_reads_old_retryCount:
  "retryCount lastAttempt = 3
   \<and> map_option retryCount (run [ManualRefresh] lastAttempt) = Some 0
   \<and> map_option isRefreshing (run [ManualRefresh] lastAttempt) = Some True
   \<and> map_option requests (run [ManualRefresh] lastAttempt)
       = Some [(3, False), (3, True), (0, False)]
   \<and> map_option configStatus (run [ManualRefresh] lastAttempt) = Some (Some validStatus)
   \<and> map_option configStatus
        (run [ManualRefresh, FetchDone 1 (Failure ''Failed to fetch'')] lastAttempt) = Some None
   \<and> map_option timers
        (run [ManualRefresh, FetchDone 1 (Failure ''Failed to fetch'')] lastAttempt)
       = Some [(11, Interval 0)]
   \<and> map_option isRefreshing
        (run [ManualRefresh, FetchDone 1 (Failure ''Failed to fetch'')] lastAttempt)
       = Some False
   \<and> retryCount retrying = 1
   \<and> map_option retryCount (run [ManualRefresh] retrying) = Some 0
   \<and> map_option timers
        (run [ManualRefresh, FetchDone 2 (Failure ''Failed to fetch'')] retrying)
       = Some [(4, Interval 0), (5, Timeout 4000 1)]"
  by (simp add: retrying_def lastAttempt_def run_defs)

subsection \<open>Manual refresh and the pending retry\<close>


lemma run_failedOnce:
  "run [FetchDone 0 (Failure ''Failed to fetch'')] mount = Some failedOnce"
  by (simp add: mount_eq failedOnce_def run_defs)

lemma run_backingOff:
  "run [FetchDone 0 (Failure ''Failed to fetch''), TimerFires 2,
        FetchDone 1 (Failure ''Failed to fetch'')] mount = Some backingOff"
  by (simp add: mount_eq backingOff_def run_defs)



subsection \<open>The hidden tab\<close>

text \<open>
  C2 at its failing input. The first request fails, so the retry timer 2 is pending and no
  request is in flight; then the tab is hidden. The handler clears the poll timer only:
  the retry timer is still pending, and when it fires in the hidden tab \<^verbatim>\<open>retryCount\<close>
  becomes 1, two requests are issued and a poll timer is armed again. The cleanup of the
  effect, run in the same state by the unmount, clears both timers.
\<close>

theorem hidden_keeps_retry_timer:
  "map_option timers
     (run [FetchDone 0 (Failure ''Failed to fetch''), VisibilityChange True] mount)
     = Some [(2, Timeout 2000 0)]
   \<and> map_option requests
     (run [FetchDone 0 (Failure ''Failed to fetch''), VisibilityChange True] mount)
     = Some []
   \<and> map_option retryCount
     (run [FetchDone 0 (Failure ''Failed to fetch''), VisibilityChange True, TimerFires 2] mount)
     = Some 1
   \<and> map_option requests
     (run [FetchDone 0 (Failure ''Failed to fetch''), VisibilityChange True, TimerFires 2] mount)
     = Some [(0, False), (1, False)]
   \<and> map_option timers
     (run [FetchDone 0 (Failure ''Failed to fetch''), VisibilityChange True, TimerFires 2] mount)
     = Some [(3, Interval 1)]
   \<and> map_option timers
     (run [FetchDone 0 (Failure ''Failed to fetch''), Unmount] mount) = Some []"
  by (simp add: mount_eq run_defs)

subsection \<open>The derived presentation\<close>

text \<open>
  C6, as the code has it: the colour is a five-way branch over the state. An error that is
  present and not the empty string gives the error colour; else no status gives the
  disconnected colour; else a valid status gives the healthy colour; else at least one of
  the two flags gives the partially-configured colour (so an invalid status with both
  flags set is partially configured); else the error colour. The icon follows the same
  branch once neither \<^verbatim>\<open>isLoading\<close> nor \<^verbatim>\<open>isRefreshing\<close> is set.
\<close>

theorem status_presentation_branches:
  "getStatusColor s = colorOf (presentation s)
   \<and> getStatusIcon s = (if isLoading s \<or> isRefreshing s then Wifi else iconOf (presentation s))"
  by (simp add: getStatusColor_def getStatusIcon_def presentation_def split: option.splits)

text \<open>
  C6 as stated fails: with both flags set and \<^verbatim>\<open>is_valid\<close> false the branch of the spec is
  the unconfigured one (red), and \<^verbatim>\<open>getStatusColor\<close> returns the yellow of the partially
  configured one.
\<close>

theorem both_flags_invalid_is_yellow:
  "spec_presentation bothSetInvalid = Unconfigured
   \<and> colorOf (spec_presentation bothSetInvalid) = ''text-red-400''
   \<and> getStatusColor bothSetInvalid = ''text-yellow-400''"
  by (simp add: spec_presentation_def bothSetInvalid_def getStatusColor_def truthy_def)

subsection \<open>Transient failures\<close>

text \<open>
  C8, as the code has it: a failed fetch whose own \<^verbatim>\<open>retryCount\<close> (the value its
  \<^verbatim>\<open>fetchConfigStatus\<close> closure reads) is below \<open>MAX_RETRIES\<close> keeps \<^verbatim>\<open>configStatus\<close>, the
  last good status, as it is; it records the error at once, so with a message that is not
  empty the status colour is the error colour from that failure on.
\<close>

theorem transient_failure_keeps_status:
  assumes "mounted s" and "k < length (requests s)" and "fst (requests s ! k) < MAX_RETRIES"
    and "msg \<noteq> []"
  shows "\<exists>s'. step (FetchDone k (Failure msg)) s = Some s'
     \<and> configStatus s' = configStatus s \<and> error s' = Some msg
     \<and> getStatusColor s' = ''text-red-400''"
  using assms
  by (simp add: step_failure_retry getStatusColor_def truthy_def)

lemma run_polling:
  "run [FetchDone 0 (Success validStatus 1), TimerFires 1] mount = Some polling"
  by (simp add: mount_eq polling_def run_defs)

text \<open>The request of a poll tick fails while a valid status is shown.\<close>

theorem transient_failure_keeps_status_witness:
  "mounted polling \<and> 0 < length (requests polling) \<and> fst (requests polling ! 0) < MAX_RETRIES
   \<and> ''Failed to fetch'' \<noteq> []
   \<and> (\<exists>s'. step (FetchDone 0 (Failure ''Failed to fetch'')) polling = Some s'
     \<and> configStatus s' = Some validStatus \<and> error s' = Some ''Failed to fetch''
     \<and> getStatusColor s' = ''text-red-400'')"
  using transient_failure_keeps_status[of polling 0 "''Failed to fetch''"]
  by (simp add: polling_def MAX_RETRIES_def)

text \<open>
  C8 as stated fails: the colour is the healthy one before the poll tick's request fails
  and the error one right after, with the retry budget untouched.
\<close>

theorem transient_failure_changes_color:
  "map_option getStatusColor
     (run [FetchDone 0 (Success validStatus 1), TimerFires 1] mount) = Some ''text-green-400''
   \<and> map_option getStatusColor
     (run [FetchDone 0 (Success validStatus 1), TimerFires 1,
           FetchDone 0 (Failure ''Failed to fetch'')] mount) = Some ''text-red-400''
   \<and> map_option retryCount
     (run [FetchDone 0 (Success validStatus 1), TimerFires 1,
           FetchDone 0 (Failure ''Failed to fetch'')] mount) = Some 0"
  by (simp add: mount_eq run_defs getStatusColor_def truthy_def validStatus_def)

section \<open>Properties of the chat page\<close>

lemma trim_empty_iff: "trim str = [] \<longleftrightarrow> list_all isWhiteSpace str"
proof -
  have "dropWhile isWhiteSpace (rev (dropWhile isWhiteSpace str)) = []
      \<longleftrightarrow> dropWhile isWhiteSpace str = []"
  proof
    assume a: "dropWhile isWhiteSpace (rev (dropWhile isWhiteSpace str)) = []"
    show "dropWhile isWhiteSpace str = []"
    proof (rule ccontr)
      assume ne: "dropWhile isWhiteSpace str \<noteq> []"
      then have "\<not> isWhiteSpace (hd (dropWhile isWhiteSpace str))"
        by (rule hd_dropWhile)
      moreover from a have "\<forall>x\<in>set (dropWhile isWhiteSpace str). isWhiteSpace x"
        by simp
      ultimately show False using ne by (meson list.set_sel(1))
    qed
  next
    assume e: "dropWhile isWhiteSpace str = []"
    show "dropWhile isWhiteSpace (rev (dropWhile isWhiteSpace str)) = []"
      unfolding e by simp
  qed
  then have "trim str = [] \<longleftrightarrow> dropWhile isWhiteSpace str = []"
    by (simp add: trim_def)
  also have "\<dots> \<longleftrightarrow> list_all isWhiteSpace str"
    by (simp add: list_all_iff)
  finally show ?thesis .
qed

lemma handleSendMessage_sends:
  assumes "\<not> list_all isWhiteSpace (input s)" and "\<not> isLoading_chat s"
  shows "length (messages (handleSendMessage now s)) = Suc (length (messages s))
    \<and> posted (handleSendMessage now s) = posted s @ [input s]"
  using assms by (simp add: handleSendMessage_def trim_empty_iff Let_def)

text \<open>
  C10: when the input is empty or consists of white space only, or a query is still in
  flight (\<^verbatim>\<open>isLoading\<close>), \<^verbatim>\<open>handleSendMessage\<close> returns at its guard: the state is the same,
  so the message list is unchanged and no request is issued.
\<close>

theorem send_guard_returns_unchanged:
  assumes "list_all isWhiteSpace (input s) \<or> isLoading_chat s"
  shows "handleSendMessage now s = s
    \<and> messages (handleSendMessage now s) = messages s
    \<and> posted (handleSendMessage now s) = posted s"
  using assms by (auto simp: handleSendMessage_def trim_empty_iff)

text \<open>
  An input of a space, a tab and a no-break space; and a real question while a query is in
  flight.
\<close>

theorem send_guard_returns_unchanged_witness:
  "list_all isWhiteSpace [32, 9, 160] 
   \<and> handleSendMessage 5 \<lparr>messages = [greeting], input = [32, 9, 160], isLoading_chat = False, posted = []\<rparr>
       = \<lparr>messages = [greeting], input = [32, 9, 160], isLoading_chat = False, posted = []\<rparr>
   \<and> handleSendMessage 5 \<lparr>messages = [greeting], input = [104, 105], isLoading_chat = True, posted = [[104, 105]]\<rparr>
       = \<lparr>messages = [greeting], input = [104, 105], isLoading_chat = True, posted = [[104, 105]]\<rparr>"
  using send_guard_returns_unchanged[of "\<lparr>messages = [greeting], input = [32, 9, 160], isLoading_chat = False, posted = []\<rparr>" 5]
    send_guard_returns_unchanged[of "\<lparr>messages = [greeting], input = [104, 105], isLoading_chat = True, posted = [[104, 105]]\<rparr>" 5]
  by (simp add: isWhiteSpace_def)

end
